theory Spec2Isabelle
  imports Main "HOL-Library.Sublist"
begin

section \<open>Flask-Compress: the response compression hook\<close>

text \<open>
  A shallow embedding of \<^verbatim>\<open>flask_compress.py\<close>: the \<^verbatim>\<open>DictCache\<close> class and the
  methods \<^verbatim>\<open>init_app\<close>, \<^verbatim>\<open>after_request\<close>, \<^verbatim>\<open>_gzip_compress\<close> and
  \<^verbatim>\<open>_brotli_compress\<close> of the class \<^verbatim>\<open>Compress\<close>.

  The framework's objects are modelled by what the module reads and writes of them. The
  gzip and Brotli libraries and the cache backend are collaborators outside the module:
  they are parameters of the model, and each of them may raise.
\<close>

subsection \<open>Strings\<close>

type_synonym bytes = string

text \<open>\<^verbatim>\<open>str.lower()\<close>, on the ASCII letters.\<close>

definition lower_char :: "char \<Rightarrow> char" where
  "lower_char c =
     (case map_of (zip ''ABCDEFGHIJKLMNOPQRSTUVWXYZ'' ''abcdefghijklmnopqrstuvwxyz'') c of
        None \<Rightarrow> c
      | Some l \<Rightarrow> l)"

definition lower :: "string \<Rightarrow> string" where
  "lower s = map lower_char s"

text \<open>\<^verbatim>\<open>sub in s\<close> on strings: \<^verbatim>\<open>sub\<close> occurs in \<^verbatim>\<open>s\<close> as a contiguous run.\<close>

fun py_in :: "string \<Rightarrow> string \<Rightarrow> bool" where
  "py_in sub [] = (sub = [])"
| "py_in sub (c # cs) = (prefix sub (c # cs) \<or> py_in sub cs)"

text \<open>\<^verbatim>\<open>str(n)\<close> of an integer: its decimal digits, with a sign when negative.\<close>

fun str_nat :: "nat \<Rightarrow> string" where
  "str_nat n =
     (if n < 10 then [''0123456789'' ! n]
      else str_nat (n div 10) @ [''0123456789'' ! (n mod 10)])"

declare str_nat.simps [simp del]

definition str_int :: "int \<Rightarrow> string" where
  "str_int i = (if i < 0 then CHR ''-'' # str_nat (nat (- i)) else str_nat (nat i))"

subsection \<open>Headers\<close>

text \<open>
  The framework's header container: a list of (name, value) pairs whose names are
  compared case-insensitively. \<^verbatim>\<open>key in headers\<close>, \<^verbatim>\<open>headers.get(key)\<close>,
  \<^verbatim>\<open>headers.get(key, default)\<close> and \<^verbatim>\<open>headers[key] = value\<close> are the four
  operations the module uses. An assignment replaces the first entry of that name,
  drops the later ones, and appends when there is none.
\<close>

type_synonym headers = "(string \<times> string) list"

fun hget :: "string \<Rightarrow> headers \<Rightarrow> string option" where
  "hget key [] = None"
| "hget key ((k, v) # hs) = (if lower k = lower key then Some v else hget key hs)"

definition hget_default :: "string \<Rightarrow> string \<Rightarrow> headers \<Rightarrow> string" where
  "hget_default key dflt hs = (case hget key hs of None \<Rightarrow> dflt | Some v \<Rightarrow> v)"

definition hcontains :: "string \<Rightarrow> headers \<Rightarrow> bool" where
  "hcontains key hs = (hget key hs \<noteq> None)"

fun hset :: "string \<Rightarrow> string \<Rightarrow> headers \<Rightarrow> headers" where
  "hset key val [] = [(key, val)]"
| "hset key val ((k, v) # hs) =
     (if lower k = lower key
      then (key, val) # filter (\<lambda>(k', _). lower k' \<noteq> lower key) hs
      else (k, v) # hset key val hs)"

subsection \<open>Request, response, configuration\<close>

record request =
  request_headers :: headers

record response =
  mimetype :: string
  status_code :: int
  content_length :: "int option"
  headers :: headers
  data :: bytes
  direct_passthrough :: bool

text \<open>
  \<^verbatim>\<open>response.get_data()\<close> reads the body. \<^verbatim>\<open>response.set_data(value)\<close> replaces
  it, and the content length of the response becomes the length of the new body.
\<close>

definition get_data :: "response \<Rightarrow> bytes" where
  "get_data r = data r"

definition set_data :: "bytes \<Rightarrow> response \<Rightarrow> response" where
  "set_data v r = r\<lparr>data := v, content_length := Some (int (length v))\<rparr>"

text \<open>\<^verbatim>\<open>app.config\<close> after \<^verbatim>\<open>init_app\<close> has written the defaults.\<close>

record config =
  COMPRESS_MIMETYPES :: "string set"
  COMPRESS_LEVEL :: int
  COMPRESS_MIN_SIZE :: int
  ENABLE_GZIP :: bool
  ENABLE_BROTLI :: bool
  COMPRESS_REGISTER :: bool

datatype encoding = BROTLI | GZIP

fun CONTENT_ENCODINGS :: "encoding \<Rightarrow> string" where
  "CONTENT_ENCODINGS BROTLI = ''brotli''"
| "CONTENT_ENCODINGS GZIP = ''gzip''"

definition TEXT_TYPES :: "string set" where
  "TEXT_TYPES = {''text/html'', ''text/css'', ''text/xml'', ''application/json'',
                 ''application/javascript''}"

subsection \<open>The compression libraries\<close>

datatype error = TypeError | LibraryError string

datatype brotli_mode = MODE_GENERIC | MODE_TEXT

text \<open>
  \<^verbatim>\<open>gzip_engine level body\<close> stands for writing \<^verbatim>\<open>body\<close> through
  \<^verbatim>\<open>GzipFile(mode='wb', compresslevel=level, fileobj=buffer)\<close> and reading the buffer;
  \<^verbatim>\<open>brotli_engine body mode quality\<close> for \<^verbatim>\<open>brotli.compress(body, mode, quality)\<close>.
\<close>

record engines =
  gzip_engine :: "int \<Rightarrow> bytes \<Rightarrow> error + bytes"
  brotli_engine :: "bytes \<Rightarrow> brotli_mode \<Rightarrow> int \<Rightarrow> error + bytes"

definition Z_BEST_COMPRESSION :: int where
  "Z_BEST_COMPRESSION = 9"

text \<open>
  \<^verbatim>\<open>_gzip_compress\<close> computes \<^verbatim>\<open>level\<close> and then does not use it: the keyword
  argument \<^verbatim>\<open>compresslevel\<close> is \<^verbatim>\<open>app.config['COMPRESS_LEVEL']\<close>.
\<close>

definition gzip_compress :: "engines \<Rightarrow> config \<Rightarrow> response \<Rightarrow> error + bytes" where
  "gzip_compress E app r =
     (let level = min Z_BEST_COMPRESSION (COMPRESS_LEVEL app)
      in gzip_engine E (COMPRESS_LEVEL app) (get_data r))"

definition brotli_compress :: "engines \<Rightarrow> config \<Rightarrow> response \<Rightarrow> error + bytes" where
  "brotli_compress E app r =
     (let mode = (if mimetype r \<in> TEXT_TYPES then MODE_TEXT else MODE_GENERIC)
      in brotli_engine E (get_data r) mode (COMPRESS_LEVEL app))"

text \<open>\<^verbatim>\<open>self._compress_methods[encoding]\<close>.\<close>

fun compress_methods :: "encoding \<Rightarrow> engines \<Rightarrow> config \<Rightarrow> response \<Rightarrow> error + bytes" where
  "compress_methods BROTLI = brotli_compress"
| "compress_methods GZIP = gzip_compress"

subsection \<open>The cache\<close>

text \<open>
  A cache backend is an object with a \<^verbatim>\<open>get\<close> and a \<^verbatim>\<open>set\<close> method over some
  state of its own. Either method may raise.
\<close>

record ('c, 'k) cache =
  store :: 'c
  cache_get :: "'c \<Rightarrow> 'k \<Rightarrow> error + bytes option"
  cache_set :: "'c \<Rightarrow> 'k \<Rightarrow> bytes \<Rightarrow> error + 'c"

text \<open>The module's own backend, \<^verbatim>\<open>DictCache\<close>: a dictionary, empty at first.\<close>

definition DictCache_get :: "('k \<rightharpoonup> bytes) \<Rightarrow> 'k \<Rightarrow> error + bytes option" where
  "DictCache_get d key = Inr (d key)"

definition DictCache_set :: "('k \<rightharpoonup> bytes) \<Rightarrow> 'k \<Rightarrow> bytes \<Rightarrow> error + ('k \<rightharpoonup> bytes)" where
  "DictCache_set d key val = Inr (d(key \<mapsto> val))"

definition DictCache :: "('k \<rightharpoonup> bytes, 'k) cache" where
  "DictCache = \<lparr>store = Map.empty, cache_get = DictCache_get, cache_set = DictCache_set\<rparr>"

subsection \<open>The Compress object\<close>

text \<open>
  The attributes \<^verbatim>\<open>after_request\<close> reads from \<^verbatim>\<open>self\<close>: the configuration of
  \<^verbatim>\<open>self.app or current_app\<close>, \<^verbatim>\<open>self._cache\<close> and the two key functions of
  \<^verbatim>\<open>self._cache_keys\<close>. A key function that is \<^verbatim>\<open>None\<close> is \<open>None\<close>.
\<close>

record ('c, 'k) compress =
  self_config :: config
  self_cache :: "('c, 'k) cache option"
  self_brotli_cache_key :: "(response \<Rightarrow> 'k) option"
  self_gzip_cache_key :: "(response \<Rightarrow> 'k) option"

fun cache_keys :: "encoding \<Rightarrow> ('c, 'k) compress \<Rightarrow> (response \<Rightarrow> 'k) option" where
  "cache_keys BROTLI self = self_brotli_cache_key self"
| "cache_keys GZIP self = self_gzip_cache_key self"

subsection \<open>after\_request\<close>

text \<open>
  The hook mutates the response it is given and the cache, calls the compression
  libraries, and leaves either by one of its three \<^verbatim>\<open>return\<close> statements or by an
  exception. An outcome holds the exit taken, the state of the response object and of the
  cache at that moment, and the calls made to the cache and to the compression methods,
  in order.
\<close>

datatype exit = Not_eligible | No_encoding | Compressed | Raised error

datatype 'k call = Cache_get 'k | Cache_set 'k bytes | Compress_method encoding

record ('c, 'k) outcome =
  exit :: exit
  response_after :: response
  cache_after :: "('c, 'k) cache option"
  calls :: "'k call list"

text \<open>The condition of the first \<^verbatim>\<open>if\<close>: the response is returned as it is.\<close>

definition ineligible :: "config \<Rightarrow> response \<Rightarrow> bool" where
  "ineligible app r =
     (mimetype r \<notin> COMPRESS_MIMETYPES app \<or>
      \<not> (200 \<le> status_code r \<and> status_code r < 300) \<or>
      (case content_length r of None \<Rightarrow> True | Some n \<Rightarrow> n < COMPRESS_MIN_SIZE app) \<or>
      hcontains ''Content-Encoding'' (headers r))"

definition select_encoding :: "config \<Rightarrow> string \<Rightarrow> encoding option" where
  "select_encoding app accept_encoding =
     (if ENABLE_BROTLI app \<and> py_in ''brotli'' (lower accept_encoding) then Some BROTLI
      else if ENABLE_GZIP app \<and> py_in ''gzip'' (lower accept_encoding) then Some GZIP
      else None)"

text \<open>
  \<^verbatim>\<open>self._cache.get(key) or self._compress_methods[encoding](app, response)\<close>: the
  compression method runs when the cache answers \<^verbatim>\<open>None\<close> or an empty byte string.
\<close>

definition get_or_compress ::
  "engines \<Rightarrow> config \<Rightarrow> encoding \<Rightarrow> response \<Rightarrow> ('c, 'k) cache \<Rightarrow> 'k \<Rightarrow>
     (error + bytes) \<times> 'k call list" where
  "get_or_compress E app encoding r c key =
     (case cache_get c (store c) key of
        Inl e \<Rightarrow> (Inl e, [Cache_get key])
      | Inr None \<Rightarrow>
          (compress_methods encoding E app r, [Cache_get key, Compress_method encoding])
      | Inr (Some cached) \<Rightarrow>
          if cached \<noteq> [] then (Inr cached, [Cache_get key])
          else (compress_methods encoding E app r,
                [Cache_get key, Compress_method encoding]))"

text \<open>
  The \<^verbatim>\<open>if self._cache is not None: ... else: ...\<close> block. Calling a key function
  that is \<^verbatim>\<open>None\<close> raises \<^verbatim>\<open>TypeError\<close>. The content is stored under the key
  whether it came from the cache or from the compression method.
\<close>

definition compressed_content ::
  "engines \<Rightarrow> ('c, 'k) compress \<Rightarrow> encoding \<Rightarrow> response \<Rightarrow>
     (error + bytes) \<times> ('c, 'k) cache option \<times> 'k call list" where
  "compressed_content E self encoding r =
     (let app = self_config self in
      case self_cache self of
        None \<Rightarrow> (compress_methods encoding E app r, None, [Compress_method encoding])
      | Some c \<Rightarrow>
          (case cache_keys encoding self of
             None \<Rightarrow> (Inl TypeError, Some c, [])
           | Some keyfn \<Rightarrow>
               let key = keyfn r in
               (case get_or_compress E app encoding r c key of
                  (Inl e, cs) \<Rightarrow> (Inl e, Some c, cs)
                | (Inr content, cs) \<Rightarrow>
                    (case cache_set c (store c) key content of
                       Inl e \<Rightarrow> (Inl e, Some c, cs @ [Cache_set key content])
                     | Inr s \<Rightarrow>
                         (Inr content, Some (c\<lparr>store := s\<rparr>),
                          cs @ [Cache_set key content])))))"

text \<open>The last block: the \<^verbatim>\<open>Vary\<close> header.\<close>

definition vary_merge :: "headers \<Rightarrow> headers" where
  "vary_merge hs =
     (case hget ''Vary'' hs of
        None \<Rightarrow> hset ''Vary'' ''Accept-Encoding'' hs
      | Some vary \<Rightarrow>
          if vary \<noteq> [] then
            (if \<not> py_in ''accept-encoding'' (lower vary)
             then hset ''Vary'' (vary @ '', Accept-Encoding'') hs
             else hs)
          else hset ''Vary'' ''Accept-Encoding'' hs)"

text \<open>The value written for \<^verbatim>\<open>response.content_length\<close>, as the header stores it.\<close>

definition str_content_length :: "int option \<Rightarrow> string" where
  "str_content_length n = (case n of None \<Rightarrow> ''None'' | Some i \<Rightarrow> str_int i)"

text \<open>From \<^verbatim>\<open>response.set_data(compressed_content)\<close> to the end.\<close>

definition rewrite :: "encoding \<Rightarrow> bytes \<Rightarrow> response \<Rightarrow> response" where
  "rewrite encoding content r =
     (let r1 = set_data content r;
          r2 = r1\<lparr>headers := hset ''Content-Encoding'' (CONTENT_ENCODINGS encoding) (headers r1)\<rparr>;
          r3 = r2\<lparr>headers :=
                    hset ''Content-Length'' (str_content_length (content_length r2)) (headers r2)\<rparr>
      in r3\<lparr>headers := vary_merge (headers r3)\<rparr>)"

text \<open>
  The hook from \<^verbatim>\<open>response.direct_passthrough = False\<close> on, once an encoding is
  selected. The flag is cleared before the content is compressed or looked up.
\<close>

definition compress_response ::
  "engines \<Rightarrow> ('c, 'k) compress \<Rightarrow> encoding \<Rightarrow> response \<Rightarrow> ('c, 'k) outcome" where
  "compress_response E self encoding r =
     (let r' = r\<lparr>direct_passthrough := False\<rparr> in
      case compressed_content E self encoding r' of
        (Inl e, c, cs) \<Rightarrow>
          \<lparr>exit = Raised e, response_after = r', cache_after = c, calls = cs\<rparr>
      | (Inr content, c, cs) \<Rightarrow>
          \<lparr>exit = Compressed, response_after = rewrite encoding content r',
           cache_after = c, calls = cs\<rparr>)"

text \<open>A \<^verbatim>\<open>return response\<close> before anything is touched.\<close>

definition unmodified :: "exit \<Rightarrow> ('c, 'k) compress \<Rightarrow> response \<Rightarrow> ('c, 'k) outcome" where
  "unmodified x self r =
     \<lparr>exit = x, response_after = r, cache_after = self_cache self, calls = []\<rparr>"

definition after_request ::
  "engines \<Rightarrow> ('c, 'k) compress \<Rightarrow> request \<Rightarrow> response \<Rightarrow> ('c, 'k) outcome" where
  "after_request E self req r =
     (let app = self_config self;
          accept_encoding = hget_default ''Accept-Encoding'' [] (request_headers req)
      in if ineligible app r then unmodified Not_eligible self r
         else
           (case select_encoding app accept_encoding of
              None \<Rightarrow> unmodified No_encoding self r
            | Some encoding \<Rightarrow> compress_response E self encoding r))"

subsection \<open>init\_app\<close>

text \<open>
  \<^verbatim>\<open>app.config\<close> as the application left it: a key it has not set is \<open>None\<close>. For the
  two key functions and the backend, whose default is \<^verbatim>\<open>None\<close>, \<open>None\<close> stands for
  both "not set" and "set to None". A backend is given by the cache object that calling
  it creates.
\<close>

record ('c, 'k) app_config =
  cfg_COMPRESS_MIMETYPES :: "string set option"
  cfg_COMPRESS_LEVEL :: "int option"
  cfg_COMPRESS_MIN_SIZE :: "int option"
  cfg_ENABLE_GZIP :: "bool option"
  cfg_ENABLE_BROTLI :: "bool option"
  cfg_GZIP_COMPRESS_CACHE_KEY :: "(response \<Rightarrow> 'k) option"
  cfg_BROTLI_COMPRESS_CACHE_KEY :: "(response \<Rightarrow> 'k) option"
  cfg_COMPRESS_CACHE_BACKEND :: "('c, 'k) cache option"
  cfg_COMPRESS_REGISTER :: "bool option"

datatype hook = Compress_after_request | Other_hook string

record ('c, 'k) flask_app =
  app_config :: "('c, 'k) app_config"
  after_request_funcs :: "hook list"

text \<open>\<^verbatim>\<open>app.config.setdefault(k, v)\<close>, as the value the key has afterwards.\<close>

definition setdefault :: "'a option \<Rightarrow> 'a \<Rightarrow> 'a" where
  "setdefault current dflt = (case current of None \<Rightarrow> dflt | Some v \<Rightarrow> v)"

definition with_defaults :: "('c, 'k) app_config \<Rightarrow> config" where
  "with_defaults c =
     \<lparr>COMPRESS_MIMETYPES = setdefault (cfg_COMPRESS_MIMETYPES c) TEXT_TYPES,
      COMPRESS_LEVEL = setdefault (cfg_COMPRESS_LEVEL c) 6,
      COMPRESS_MIN_SIZE = setdefault (cfg_COMPRESS_MIN_SIZE c) 500,
      ENABLE_GZIP = setdefault (cfg_ENABLE_GZIP c) True,
      ENABLE_BROTLI = setdefault (cfg_ENABLE_BROTLI c) True,
      COMPRESS_REGISTER = setdefault (cfg_COMPRESS_REGISTER c) True\<rparr>"

definition write_defaults :: "('c, 'k) app_config \<Rightarrow> ('c, 'k) app_config" where
  "write_defaults c =
     (let d = with_defaults c in
      c\<lparr>cfg_COMPRESS_MIMETYPES := Some (COMPRESS_MIMETYPES d),
        cfg_COMPRESS_LEVEL := Some (COMPRESS_LEVEL d),
        cfg_COMPRESS_MIN_SIZE := Some (COMPRESS_MIN_SIZE d),
        cfg_ENABLE_GZIP := Some (ENABLE_GZIP d),
        cfg_ENABLE_BROTLI := Some (ENABLE_BROTLI d),
        cfg_COMPRESS_REGISTER := Some (COMPRESS_REGISTER d)\<rparr>)"

text \<open>
  \<^verbatim>\<open>init_app\<close> gives the attributes of \<^verbatim>\<open>self\<close> and the application afterwards.
  \<^verbatim>\<open>app.after_request(self.after_request)\<close> appends the hook to the application's
  list of after-request functions; a set of MIME types is true when it is not empty.
\<close>

definition init_app :: "('c, 'k) flask_app \<Rightarrow> ('c, 'k) compress \<times> ('c, 'k) flask_app" where
  "init_app app =
     (let conf = with_defaults (app_config app);
          app1 = app\<lparr>app_config := write_defaults (app_config app)\<rparr>;
          self = \<lparr>self_config = conf,
                  self_cache = cfg_COMPRESS_CACHE_BACKEND (app_config app1),
                  self_brotli_cache_key = cfg_BROTLI_COMPRESS_CACHE_KEY (app_config app1),
                  self_gzip_cache_key = cfg_GZIP_COMPRESS_CACHE_KEY (app_config app1)\<rparr>
      in if COMPRESS_REGISTER conf \<and> COMPRESS_MIMETYPES conf \<noteq> {}
         then (self, app1\<lparr>after_request_funcs :=
                            after_request_funcs app1 @ [Compress_after_request]\<rparr>)
         else (self, app1))"

section \<open>Notions of the specification\<close>

text \<open>
  Encoding selection as the specification words it: the header value, empty when the
  header is absent, is lowercased and searched for the substrings \<open>brotli\<close> and
  \<open>gzip\<close>, Brotli first. \<^const>\<open>sublist\<close> is the library's notion of a contiguous
  run: \<open>sublist xs ys\<close> holds when \<open>ys = ps @ xs @ ss\<close> for some \<open>ps\<close> and \<open>ss\<close>.
\<close>

definition spec_selection :: "bool \<Rightarrow> bool \<Rightarrow> string option \<Rightarrow> encoding option" where
  "spec_selection brotliEnabled gzipEnabled header =
     (let v = lower (case header of None \<Rightarrow> [] | Some h \<Rightarrow> h)
      in if brotliEnabled \<and> sublist ''brotli'' v then Some BROTLI
         else if gzipEnabled \<and> sublist ''gzip'' v then Some GZIP
         else None)"

text \<open>
  The comma-separated tokens of a header value, each without the blanks around it.
\<close>

fun split_commas :: "string \<Rightarrow> string list" where
  "split_commas [] = [[]]"
| "split_commas (c # cs) =
     (if c = CHR '','' then [] # split_commas cs
      else (case split_commas cs of [] \<Rightarrow> [[c]] | t # ts \<Rightarrow> (c # t) # ts))"

definition strip :: "string \<Rightarrow> string" where
  "strip s = rev (dropWhile (\<lambda>c. c = CHR '' '') (rev (dropWhile (\<lambda>c. c = CHR '' '') s)))"

definition vary_tokens :: "string \<Rightarrow> string list" where
  "vary_tokens v = map strip (split_commas v)"

text \<open>
  An invocation in which the compression routine or a cache operation raises \<open>e\<close>: the
  compression method when there is no cache; with a cache and a key function, the
  lookup, or the compression method after a miss, or the store.
\<close>

definition routine_raises ::
  "engines \<Rightarrow> ('c, 'k) compress \<Rightarrow> encoding \<Rightarrow> response \<Rightarrow> error \<Rightarrow> bool" where
  "routine_raises E self encoding r e =
     (case self_cache self of
        None \<Rightarrow> compress_methods encoding E (self_config self) r = Inl e
      | Some c \<Rightarrow>
          (case cache_keys encoding self of
             None \<Rightarrow> False
           | Some keyfn \<Rightarrow>
               (case cache_get c (store c) (keyfn r) of
                  Inl e' \<Rightarrow> e' = e
                | Inr hit \<Rightarrow>
                    (case (case hit of
                             None \<Rightarrow> compress_methods encoding E (self_config self) r
                           | Some cached \<Rightarrow>
                               if cached = []
                               then compress_methods encoding E (self_config self) r
                               else Inr cached) of
                       Inl e' \<Rightarrow> e' = e
                     | Inr content \<Rightarrow>
                         cache_set c (store c) (keyfn r) content = Inl e))))"

text \<open>Compression libraries never answer with an empty byte string.\<close>

definition nonempty_output :: "engines \<Rightarrow> bool" where
  "nonempty_output E =
     ((\<forall>level body out. gzip_engine E level body = Inr out \<longrightarrow> out \<noteq> []) \<and>
      (\<forall>body mode quality out. brotli_engine E body mode quality = Inr out \<longrightarrow> out \<noteq> []))"

text \<open>
  A cache that keeps what it is given: a store never raises, and a lookup after it
  answers with the bytes stored.
\<close>

definition retains :: "('c, 'k) cache \<Rightarrow> bool" where
  "retains c =
     (\<forall>s key val. \<exists>s'. cache_set c s key val = Inr s' \<and>
                       cache_get c s' key = Inr (Some val))"

section \<open>Example objects\<close>

text \<open>An engine that answers with the effort level it was given, as a decimal string.\<close>

definition level_spy :: engines where
  "level_spy = \<lparr>gzip_engine = (\<lambda>level body. Inr (str_int level)),
                brotli_engine = (\<lambda>body mode quality. Inr (str_int quality))\<rparr>"

text \<open>Engines that put a tag before the body, and engines that always raise.\<close>

definition tagging_engines :: engines where
  "tagging_engines = \<lparr>gzip_engine = (\<lambda>level body. Inr (''gzip:'' @ body)),
                      brotli_engine = (\<lambda>body mode quality. Inr (''brotli:'' @ body))\<rparr>"

definition failing_engines :: engines where
  "failing_engines = \<lparr>gzip_engine = (\<lambda>level body. Inl (LibraryError ''gzip'')),
                      brotli_engine = (\<lambda>body mode quality. Inl (LibraryError ''brotli''))\<rparr>"

text \<open>An application that sets no option, and what \<^verbatim>\<open>init_app\<close> makes of it.\<close>

definition bare_app :: "(string \<rightharpoonup> bytes, string) flask_app" where
  "bare_app =
     \<lparr>app_config =
        \<lparr>cfg_COMPRESS_MIMETYPES = None, cfg_COMPRESS_LEVEL = None,
         cfg_COMPRESS_MIN_SIZE = None, cfg_ENABLE_GZIP = None, cfg_ENABLE_BROTLI = None,
         cfg_GZIP_COMPRESS_CACHE_KEY = None, cfg_BROTLI_COMPRESS_CACHE_KEY = None,
         cfg_COMPRESS_CACHE_BACKEND = None, cfg_COMPRESS_REGISTER = None\<rparr>,
      after_request_funcs = [Other_hook ''session'']\<rparr>"

definition default_config :: config where
  "default_config =
     \<lparr>COMPRESS_MIMETYPES = TEXT_TYPES, COMPRESS_LEVEL = 6, COMPRESS_MIN_SIZE = 500,
      ENABLE_GZIP = True, ENABLE_BROTLI = True, COMPRESS_REGISTER = True\<rparr>"

definition no_cache :: "(string \<rightharpoonup> bytes, string) compress" where
  "no_cache = \<lparr>self_config = default_config, self_cache = None,
               self_brotli_cache_key = None, self_gzip_cache_key = None\<rparr>"

text \<open>A \<^verbatim>\<open>DictCache\<close> with a key function for gzip only, and one with both.\<close>

definition gzip_keyed :: "(string \<rightharpoonup> bytes, string) compress" where
  "gzip_keyed = \<lparr>self_config = default_config, self_cache = Some DictCache,
                 self_brotli_cache_key = None, self_gzip_cache_key = Some mimetype\<rparr>"

definition both_keyed :: "(string \<rightharpoonup> bytes, string) compress" where
  "both_keyed = \<lparr>self_config = default_config, self_cache = Some DictCache,
                 self_brotli_cache_key = Some (\<lambda>r. ''br:'' @ mimetype r),
                 self_gzip_cache_key = Some (\<lambda>r. ''gz:'' @ mimetype r)\<rparr>"

definition page :: response where
  "page = \<lparr>mimetype = ''text/html'', status_code = 200, content_length = Some 600,
           headers = [(''Content-Type'', ''text/html''), (''Content-Length'', ''600'')],
           data = replicate 600 (CHR ''a''), direct_passthrough = True\<rparr>"

definition accepting :: "string \<Rightarrow> request" where
  "accepting v = \<lparr>request_headers = [(''Accept-Encoding'', v)]\<rparr>"

text \<open>Responses that differ from \<open>page\<close> in one respect.\<close>

definition page_varying :: "string \<Rightarrow> response" where
  "page_varying v = page\<lparr>headers := headers page @ [(''Vary'', v)]\<rparr>"

definition png_image :: response where
  "png_image = page\<lparr>mimetype := ''image/png''\<rparr>"

definition precompressed :: response where
  "precompressed = page\<lparr>headers := headers page @ [(''content-encoding'', ''gzip'')]\<rparr>"

text \<open>
  A backend that keeps nothing: a lookup answers \<^verbatim>\<open>None\<close> and a store does nothing.
  With it, the hook under the default configuration and a key function for each encoding.
\<close>

definition null_cache :: "(unit, 'k) cache" where
  "null_cache = \<lparr>store = (), cache_get = (\<lambda>s key. Inr None),
                 cache_set = (\<lambda>s key val. Inr s)\<rparr>"

definition null_keyed :: "(unit, string) compress" where
  "null_keyed = \<lparr>self_config = default_config, self_cache = Some null_cache,
                 self_brotli_cache_key = Some (\<lambda>r. ''br:'' @ mimetype r),
                 self_gzip_cache_key = Some (\<lambda>r. ''gz:'' @ mimetype r)\<rparr>"

text \<open>Engines that answer with no bytes at all.\<close>

definition silent_engines :: engines where
  "silent_engines = \<lparr>gzip_engine = (\<lambda>level body. Inr []),
                     brotli_engine = (\<lambda>body mode quality. Inr [])\<rparr>"

section \<open>Auxiliary facts\<close>

lemma py_in_sublist: "py_in sub s = sublist sub s"
  by (induction s) (auto simp: sublist_Cons_right)

lemma lower_consts:
  "lower ''Content-Encoding'' = ''content-encoding''"
  "lower ''Content-Length'' = ''content-length''"
  "lower ''Vary'' = ''vary''"
  "lower '', Accept-Encoding'' = '', accept-encoding''"
  "lower ''Accept-Encoding'' = ''accept-encoding''"
  by (simp_all add: lower_def lower_char_def)

lemma lower_append: "lower (a @ b) = lower a @ lower b"
  by (simp add: lower_def)

lemma hget_filter_other:
  "lower k' \<noteq> lower k \<Longrightarrow> hget k' (filter (\<lambda>(a, _). lower a \<noteq> lower k) hs) = hget k' hs"
  by (induction hs) auto

lemma hget_hset_same: "lower k' = lower k \<Longrightarrow> hget k' (hset k v hs) = Some v"
  by (induction hs) auto

lemma hget_hset_other: "lower k' \<noteq> lower k \<Longrightarrow> hget k' (hset k v hs) = hget k' hs"
  by (induction hs) (auto simp: hget_filter_other)

lemma mentions_appended: "py_in ''accept-encoding'' (lower (v @ '', Accept-Encoding''))"
proof -
  have "lower (v @ '', Accept-Encoding'') = (lower v @ '', '') @ ''accept-encoding'' @ []"
    by (simp add: lower_append lower_consts)
  then show ?thesis
    unfolding py_in_sublist sublist_def by blast
qed

lemma mentions_fresh: "py_in ''accept-encoding'' (lower ''Accept-Encoding'')"
  by (simp add: lower_consts)

lemma hget_vary_merge_other:
  "lower k \<noteq> lower ''Vary'' \<Longrightarrow> hget k (vary_merge hs) = hget k hs"
  by (simp add: vary_merge_def hget_hset_other split: option.splits)

lemma vary_merge_vary:
  "hget ''Vary'' (vary_merge hs) =
     Some (case hget ''Vary'' hs of
             None \<Rightarrow> ''Accept-Encoding''
           | Some v \<Rightarrow> if v = [] then ''Accept-Encoding''
                       else if py_in ''accept-encoding'' (lower v) then v
                       else v @ '', Accept-Encoding'')"
  by (simp add: vary_merge_def hget_hset_same split: option.splits)

lemma vary_merge_mentions:
  "\<exists>v. hget ''Vary'' (vary_merge hs) = Some v \<and> v \<noteq> [] \<and> py_in ''accept-encoding'' (lower v)"
  using mentions_appended mentions_fresh
  by (auto simp add: vary_merge_vary split: option.splits)

lemma vary_merge_idem: "vary_merge (vary_merge hs) = vary_merge hs"
proof -
  obtain v where "hget ''Vary'' (vary_merge hs) = Some v" "v \<noteq> []"
    "py_in ''accept-encoding'' (lower v)"
    using vary_merge_mentions by blast
  then show ?thesis
    by (simp add: vary_merge_def [of "vary_merge hs"])
qed

lemma split_commas_nonempty: "split_commas s \<noteq> []"
  by (induction s) (auto split: list.splits)

lemma split_commas_append:
  "split_commas (v @ CHR '','' # w) = split_commas v @ split_commas w"
proof (induction v)
  case Nil
  show ?case by simp
next
  case (Cons c v)
  then show ?case
    using split_commas_nonempty [of v]
    by (cases "split_commas v") auto
qed

lemma tokens_appended:
  "vary_tokens (v @ '', Accept-Encoding'') = vary_tokens v @ [''Accept-Encoding'']"
proof -
  have "split_commas '' Accept-Encoding'' = ['' Accept-Encoding'']"
    by simp
  moreover have "strip '' Accept-Encoding'' = ''Accept-Encoding''"
    by (simp add: strip_def)
  ultimately show ?thesis
    using split_commas_append [of v "'' Accept-Encoding''"]
    by (simp add: vary_tokens_def)
qed

lemma tokens_fresh: "vary_tokens ''Accept-Encoding'' = [''Accept-Encoding'']"
  by (simp add: vary_tokens_def strip_def)


lemma after_request_selected:
  "\<not> ineligible (self_config self) r \<Longrightarrow>
   select_encoding (self_config self)
     (hget_default ''Accept-Encoding'' [] (request_headers req)) = Some encoding \<Longrightarrow>
   after_request E self req r = compress_response E self encoding r"
  by (simp add: after_request_def)

lemma select_encoding_spec:
  "select_encoding app (hget_default ''Accept-Encoding'' [] hs) =
   spec_selection (ENABLE_BROTLI app) (ENABLE_GZIP app) (hget ''Accept-Encoding'' hs)"
  by (simp add: select_encoding_def spec_selection_def hget_default_def py_in_sublist Let_def)

lemma select_encoding_token:
  "select_encoding app v = Some encoding \<Longrightarrow> sublist (CONTENT_ENCODINGS encoding) (lower v)"
  by (auto simp: select_encoding_def py_in_sublist split: if_splits)

lemma str_int_length: "str_int (int n) = str_nat n"
  by (simp add: str_int_def)

lemma rewrite_data: "data (rewrite encoding content r) = content"
  by (simp add: rewrite_def set_data_def Let_def)

lemma rewrite_content_length:
  "content_length (rewrite encoding content r) = Some (int (length content))"
  by (simp add: rewrite_def set_data_def Let_def)

lemma rewrite_content_encoding:
  "hget ''Content-Encoding'' (headers (rewrite encoding content r)) =
     Some (CONTENT_ENCODINGS encoding)"
  by (simp add: rewrite_def set_data_def Let_def hget_vary_merge_other hget_hset_other
      hget_hset_same lower_consts)

lemma rewrite_content_length_header:
  "hget ''Content-Length'' (headers (rewrite encoding content r)) =
     Some (str_nat (length content))"
  by (simp add: rewrite_def set_data_def Let_def hget_vary_merge_other hget_hset_same
      lower_consts str_content_length_def str_int_length)

lemma rewrite_vary:
  "hget ''Vary'' (headers (rewrite encoding content r)) =
     Some (case hget ''Vary'' (headers r) of
             None \<Rightarrow> ''Accept-Encoding''
           | Some v \<Rightarrow> if v = [] then ''Accept-Encoding''
                       else if py_in ''accept-encoding'' (lower v) then v
                       else v @ '', Accept-Encoding'')"
  by (simp add: rewrite_def set_data_def Let_def vary_merge_vary hget_hset_other lower_consts)

lemma rewrite_other_fields:
  "mimetype (rewrite encoding content r) = mimetype r"
  "status_code (rewrite encoding content r) = status_code r"
  "direct_passthrough (rewrite encoding content r) = direct_passthrough r"
  by (simp_all add: rewrite_def set_data_def Let_def)

lemma compress_response_cases:
  "(\<exists>e. exit (compress_response E self encoding r) = Raised e \<and>
        response_after (compress_response E self encoding r) = r\<lparr>direct_passthrough := False\<rparr>) \<or>
   (\<exists>content. exit (compress_response E self encoding r) = Compressed \<and>
        response_after (compress_response E self encoding r) =
          rewrite encoding content (r\<lparr>direct_passthrough := False\<rparr>))"
  by (auto simp: compress_response_def Let_def split: prod.splits sum.splits)

lemma after_request_ineligible:
  "ineligible (self_config self) r \<Longrightarrow>
   after_request E self req r = unmodified Not_eligible self r"
  by (simp add: after_request_def)

lemma after_request_no_encoding:
  "\<not> ineligible (self_config self) r \<Longrightarrow>
   select_encoding (self_config self)
     (hget_default ''Accept-Encoding'' [] (request_headers req)) = None \<Longrightarrow>
   after_request E self req r = unmodified No_encoding self r"
  by (simp add: after_request_def)

lemma after_request_exit_cases:
  "(exit (after_request E self req r) \<in> {Not_eligible, No_encoding} \<and>
      response_after (after_request E self req r) = r) \<or>
   (\<exists>e. exit (after_request E self req r) = Raised e \<and>
      response_after (after_request E self req r) = r\<lparr>direct_passthrough := False\<rparr>) \<or>
   (\<exists>encoding content.
      \<not> ineligible (self_config self) r \<and>
      select_encoding (self_config self)
        (hget_default ''Accept-Encoding'' [] (request_headers req)) = Some encoding \<and>
      exit (after_request E self req r) = Compressed \<and>
      response_after (after_request E self req r) =
        rewrite encoding content (r\<lparr>direct_passthrough := False\<rparr>))"
proof (cases "ineligible (self_config self) r")
  case True
  then show ?thesis by (simp add: after_request_ineligible unmodified_def)
next
  case False
  show ?thesis
  proof (cases "select_encoding (self_config self)
        (hget_default ''Accept-Encoding'' [] (request_headers req))")
    case None
    with False show ?thesis by (simp add: after_request_no_encoding unmodified_def)
  next
    case (Some encoding)
    with False have "after_request E self req r = compress_response E self encoding r"
      by (rule after_request_selected)
    with False Some compress_response_cases [of E self encoding r] show ?thesis
      by auto
  qed
qed

lemma page_eligible:
  "\<not> ineligible default_config page"
  "\<not> ineligible default_config (page_varying v)"
  by (simp_all add: ineligible_def default_config_def page_def page_varying_def TEXT_TYPES_def
      hcontains_def lower_def lower_char_def)

lemma example_configs:
  "self_config no_cache = default_config"
  "self_config gzip_keyed = default_config"
  "self_config both_keyed = default_config"
  by (simp_all add: no_cache_def gzip_keyed_def both_keyed_def)

lemma accepting_header:
  "hget ''Accept-Encoding'' (request_headers (accepting v)) = Some v"
  "hget_default ''Accept-Encoding'' [] (request_headers (accepting v)) = v"
  by (simp_all add: accepting_def hget_default_def)

lemma select_examples:
  "select_encoding default_config ''gzip'' = Some GZIP"
  "select_encoding default_config ''brotli'' = Some BROTLI"
  "select_encoding default_config ''br, gzip'' = Some GZIP"
  "select_encoding default_config ''brotli, gzip'' = Some BROTLI"
  "select_encoding default_config ''identity'' = None"
  by (simp_all add: select_encoding_def default_config_def lower_def lower_char_def)

lemma image_ineligible: "mimetype png_image \<notin> COMPRESS_MIMETYPES default_config"
  by (simp add: png_image_def default_config_def TEXT_TYPES_def)

lemma precompressed_ineligible: "hget ''Content-Encoding'' (headers precompressed) \<noteq> None"
  by (simp add: precompressed_def page_def lower_def lower_char_def)

lemma no_cache_content:
  "compressed_content E no_cache encoding r =
     (compress_methods encoding E default_config r, None, [Compress_method encoding])"
  by (simp add: compressed_content_def no_cache_def)

lemma tagging_gzip:
  "gzip_compress tagging_engines app r = Inr (''gzip:'' @ data r)"
  by (simp add: gzip_compress_def tagging_engines_def get_data_def)

lemma tagging_brotli:
  "brotli_compress tagging_engines app r = Inr (''brotli:'' @ data r)"
  by (simp add: brotli_compress_def tagging_engines_def get_data_def)

lemma failing_gzip:
  "gzip_compress failing_engines app r = Inl (LibraryError ''gzip'')"
  by (simp add: gzip_compress_def failing_engines_def)

lemma page_eligible_self:
  "\<not> ineligible (self_config no_cache) page"
  "\<not> ineligible (self_config gzip_keyed) page"
  "\<not> ineligible (self_config both_keyed) page"
  by (simp_all add: example_configs page_eligible)

lemma gzip_run:
  "after_request E no_cache (accepting ''gzip'') page = compress_response E no_cache GZIP page"
  by (rule after_request_selected)
    (simp_all add: example_configs page_eligible accepting_header select_examples)

lemma gzip_run_exit:
  "exit (after_request tagging_engines no_cache (accepting ''gzip'') page) = Compressed"
  by (simp add: gzip_run compress_response_def no_cache_content tagging_gzip Let_def)

lemma spec_selection_examples:
  "spec_selection True True (Some ''x-GZip;q=1'') = Some GZIP"
  "spec_selection True True (Some ''gzip, BROTLI'') = Some BROTLI"
  "spec_selection False True (Some ''gzip, brotli'') = Some GZIP"
  "spec_selection True False (Some ''gzip'') = None"
  "spec_selection True True None = None"
  by code_simp+

lemma get_or_compress_value:
  "fst (get_or_compress E app encoding r c key) =
     (case cache_get c (store c) key of
        Inl e \<Rightarrow> Inl e
      | Inr hit \<Rightarrow>
          (case hit of
             None \<Rightarrow> compress_methods encoding E app r
           | Some cached \<Rightarrow>
               if cached = [] then compress_methods encoding E app r else Inr cached))"
  by (simp add: get_or_compress_def split: sum.splits option.splits)

lemma compressed_content_raises:
  assumes "routine_raises E self encoding r e"
  shows "fst (compressed_content E self encoding r) = Inl e"
proof (cases "self_cache self")
  case None
  with assms show ?thesis
    by (simp add: routine_raises_def compressed_content_def)
next
  case (Some c)
  show ?thesis
  proof (cases "cache_keys encoding self")
    case None
    with Some assms show ?thesis
      by (simp add: routine_raises_def)
  next
    case keyed: (Some keyfn)
    obtain res cs where g: "get_or_compress E (self_config self) encoding r c (keyfn r) = (res, cs)"
      by (cases "get_or_compress E (self_config self) encoding r c (keyfn r)")
    have res: "res = (case cache_get c (store c) (keyfn r) of
        Inl e \<Rightarrow> Inl e
      | Inr hit \<Rightarrow>
          (case hit of
             None \<Rightarrow> compress_methods encoding E (self_config self) r
           | Some cached \<Rightarrow>
               if cached = [] then compress_methods encoding E (self_config self) r
               else Inr cached))"
      using get_or_compress_value [of E "self_config self" encoding r c "keyfn r"] g by simp
    show ?thesis
    proof (cases res)
      case (Inl e')
      with assms Some keyed res have "e' = e"
        by (simp add: routine_raises_def split: sum.splits)
      with Inl Some keyed g show ?thesis
        by (simp add: compressed_content_def)
    next
      case (Inr content)
      with assms Some keyed res have "cache_set c (store c) (keyfn r) content = Inl e"
        by (simp add: routine_raises_def split: sum.splits)
      with Inr Some keyed g show ?thesis
        by (simp add: compressed_content_def)
    qed
  qed
qed

lemma cookie_tokens:
  "vary_tokens ''Cookie, Accept-Encoding'' = [''Cookie'', ''Accept-Encoding'']"
  by (simp add: vary_tokens_def strip_def)

lemma cookie_not_mentions: "\<not> py_in ''accept-encoding'' (lower ''Cookie'')"
  by (simp add: lower_def lower_char_def)

lemma rewrite_ineligible: "ineligible app (rewrite encoding content r)"
  by (simp add: ineligible_def hcontains_def rewrite_content_encoding)

lemma tagging_gzip_run:
  assumes "\<not> ineligible default_config r"
  shows "exit (after_request tagging_engines no_cache (accepting ''gzip'') r) = Compressed"
proof -
  have "after_request tagging_engines no_cache (accepting ''gzip'') r =
        compress_response tagging_engines no_cache GZIP r"
    by (rule after_request_selected)
      (simp_all add: example_configs assms accepting_header select_examples)
  then show ?thesis
    by (simp add: compress_response_def no_cache_content tagging_gzip Let_def)
qed

lemma compress_methods_nonempty:
  "nonempty_output E \<Longrightarrow> compress_methods encoding E app r = Inr content \<Longrightarrow> content \<noteq> []"
  by (cases encoding)
    (auto simp: nonempty_output_def gzip_compress_def brotli_compress_def Let_def)

lemma dict_content:
  assumes "self_cache self = Some (DictCache\<lparr>store := m\<rparr>)"
      and "cache_keys encoding self = Some keyfn"
  shows "compressed_content E self encoding r =
           (case (case m (keyfn r) of
                    None \<Rightarrow> (compress_methods encoding E (self_config self) r,
                              [Cache_get (keyfn r), Compress_method encoding])
                  | Some cached \<Rightarrow>
                      if cached \<noteq> [] then (Inr cached, [Cache_get (keyfn r)])
                      else (compress_methods encoding E (self_config self) r,
                            [Cache_get (keyfn r), Compress_method encoding])) of
              (Inl e, cs) \<Rightarrow> (Inl e, Some (DictCache\<lparr>store := m\<rparr>), cs)
            | (Inr content, cs) \<Rightarrow>
                (Inr content, Some (DictCache\<lparr>store := m(keyfn r \<mapsto> content)\<rparr>),
                 cs @ [Cache_set (keyfn r) content]))"
  using assms
  by (simp add: compressed_content_def get_or_compress_def DictCache_def DictCache_get_def
      DictCache_set_def Let_def split: option.splits sum.splits)

lemma cache_keys_cache_update [simp]:
  "cache_keys encoding (self\<lparr>self_cache := c\<rparr>) = cache_keys encoding self"
  by (cases encoding) simp_all

lemma tagging_nonempty: "nonempty_output tagging_engines"
  by (simp add: nonempty_output_def tagging_engines_def)

lemma both_keyed_fields:
  "self_cache both_keyed = Some (DictCache\<lparr>store := Map.empty\<rparr>)"
  "cache_keys GZIP both_keyed = Some (\<lambda>r. ''gz:'' @ mimetype r)"
  "cache_keys BROTLI both_keyed = Some (\<lambda>r. ''br:'' @ mimetype r)"
  by (simp_all add: both_keyed_def DictCache_def)

lemma both_keyed_select:
  "select_encoding (self_config both_keyed)
     (hget_default ''Accept-Encoding'' [] (request_headers (accepting ''gzip''))) = Some GZIP"
  by (simp add: example_configs accepting_header select_examples)

lemma both_keyed_first:
  "exit (after_request tagging_engines both_keyed (accepting ''gzip'') page) = Compressed"
proof -
  have "after_request tagging_engines both_keyed (accepting ''gzip'') page =
        compress_response tagging_engines both_keyed GZIP page"
    using page_eligible_self(3) both_keyed_select by (rule after_request_selected)
  then show ?thesis
    by (simp add: compress_response_def Let_def tagging_gzip
        dict_content [OF both_keyed_fields(1,2)])
qed

lemma get_or_compress_calls:
  "snd (get_or_compress E app encoding r c key) =
     (case cache_get c (store c) key of
        Inl e \<Rightarrow> [Cache_get key]
      | Inr hit \<Rightarrow>
          if hit = None \<or> hit = Some [] then [Cache_get key, Compress_method encoding]
          else [Cache_get key])"
  by (simp add: get_or_compress_def split: sum.splits option.splits)

lemma keyed_content:
  assumes "self_cache self = Some c"
      and "cache_keys encoding self = Some keyfn"
      and "compressed_content E self encoding r = (Inr content, c', cs)"
  shows "\<exists>hit s. cache_get c (store c) (keyfn r) = Inr hit \<and>
           (if hit = None \<or> hit = Some []
            then compress_methods encoding E (self_config self) r = Inr content \<and>
                 cs = [Cache_get (keyfn r), Compress_method encoding,
                       Cache_set (keyfn r) content]
            else hit = Some content \<and>
                 cs = [Cache_get (keyfn r), Cache_set (keyfn r) content]) \<and>
           cache_set c (store c) (keyfn r) content = Inr s \<and>
           c' = Some (c\<lparr>store := s\<rparr>)"
proof -
  obtain res gs where
    g: "get_or_compress E (self_config self) encoding r c (keyfn r) = (res, gs)"
    by (cases "get_or_compress E (self_config self) encoding r c (keyfn r)")
  have cc: "compressed_content E self encoding r =
      (case res of
         Inl e \<Rightarrow> (Inl e, Some c, gs)
       | Inr content \<Rightarrow>
           (case cache_set c (store c) (keyfn r) content of
              Inl e \<Rightarrow> (Inl e, Some c, gs @ [Cache_set (keyfn r) content])
            | Inr s \<Rightarrow>
                (Inr content, Some (c\<lparr>store := s\<rparr>), gs @ [Cache_set (keyfn r) content])))"
    using assms(1,2) g by (simp add: compressed_content_def Let_def)
  have res: "res = Inr content"
    using assms(3) cc by (cases res) (simp_all split: sum.splits)
  obtain s where
    s: "cache_set c (store c) (keyfn r) content = Inr s"
    and c': "c' = Some (c\<lparr>store := s\<rparr>)"
    and cs: "cs = gs @ [Cache_set (keyfn r) content]"
    using assms(3) cc res
    by (cases "cache_set c (store c) (keyfn r) content") simp_all
  obtain hit where hit: "cache_get c (store c) (keyfn r) = Inr hit"
    using get_or_compress_value [of E "self_config self" encoding r c "keyfn r"] g res
    by (cases "cache_get c (store c) (keyfn r)") simp_all
  have chosen: "(if hit = None \<or> hit = Some []
                then compress_methods encoding E (self_config self) r = Inr content
                else hit = Some content)"
    using get_or_compress_value [of E "self_config self" encoding r c "keyfn r"] g res hit
    by (cases hit) (simp_all split: if_splits)
  have gs: "gs = (if hit = None \<or> hit = Some []
                  then [Cache_get (keyfn r), Compress_method encoding]
                  else [Cache_get (keyfn r)])"
    using get_or_compress_calls [of E "self_config self" encoding r c "keyfn r"] g hit
    by simp
  show ?thesis
    using hit chosen gs s c' cs by auto
qed

lemma keyed_hit:
  assumes "self_cache self = Some c"
      and "cache_keys encoding self = Some keyfn"
      and "cache_get c (store c) (keyfn r) = Inr (Some content)"
      and "content \<noteq> []"
      and "cache_set c (store c) (keyfn r) content = Inr s"
  shows "compressed_content E self encoding r =
           (Inr content, Some (c\<lparr>store := s\<rparr>),
            [Cache_get (keyfn r), Cache_set (keyfn r) content])"
  using assms
  by (simp add: compressed_content_def get_or_compress_def Let_def)

lemma compress_response_compressed:
  assumes "exit (compress_response E self encoding r) = Compressed"
  shows "\<exists>content c' cs.
           compressed_content E self encoding (r\<lparr>direct_passthrough := False\<rparr>) =
             (Inr content, c', cs) \<and>
           compress_response E self encoding r =
             \<lparr>exit = Compressed,
              response_after = rewrite encoding content (r\<lparr>direct_passthrough := False\<rparr>),
              cache_after = c', calls = cs\<rparr>"
  using assms
  by (auto simp: compress_response_def Let_def split: prod.splits sum.splits)

lemma retains_DictCache: "retains (DictCache\<lparr>store := m\<rparr>)"
  by (simp add: retains_def DictCache_def DictCache_get_def DictCache_set_def)

lemma null_keyed_fields:
  "self_config null_keyed = default_config"
  "self_cache null_keyed = Some null_cache"
  "cache_keys GZIP null_keyed = Some (\<lambda>r. ''gz:'' @ mimetype r)"
  by (simp_all add: null_keyed_def)

lemma null_keyed_run:
  "after_request E (null_keyed\<lparr>self_cache := Some null_cache\<rparr>) (accepting ''gzip'') page =
     (case gzip_compress E default_config (page\<lparr>direct_passthrough := False\<rparr>) of
        Inl e \<Rightarrow>
          \<lparr>exit = Raised e, response_after = page\<lparr>direct_passthrough := False\<rparr>,
           cache_after = Some null_cache,
           calls = [Cache_get ''gz:text/html'', Compress_method GZIP]\<rparr>
      | Inr content \<Rightarrow>
          \<lparr>exit = Compressed,
           response_after = rewrite GZIP content (page\<lparr>direct_passthrough := False\<rparr>),
           cache_after = Some null_cache,
           calls = [Cache_get ''gz:text/html'', Compress_method GZIP,
                    Cache_set ''gz:text/html'' content]\<rparr>)"
proof -
  have "after_request E (null_keyed\<lparr>self_cache := Some null_cache\<rparr>) (accepting ''gzip'') page =
        compress_response E (null_keyed\<lparr>self_cache := Some null_cache\<rparr>) GZIP page"
    by (rule after_request_selected)
      (simp_all add: null_keyed_fields page_eligible accepting_header select_examples)
  then show ?thesis
    by (simp add: compress_response_def compressed_content_def get_or_compress_def
        null_keyed_def null_cache_def page_def Let_def split: sum.splits)
qed

lemma null_keyed_same: "null_keyed\<lparr>self_cache := Some null_cache\<rparr> = null_keyed"
  by (simp add: null_keyed_def)

section \<open>Results\<close>

text \<open>
  C1 (the gzip effort level is \<open>min 9 level\<close>): the code hands the configured level to
  the gzip library as it is. With \<^verbatim>\<open>COMPRESS_LEVEL = 11\<close> the library is called
  with 11, not with 9.
\<close>

theorem gzip_level_not_clamped:
  "gzip_compress level_spy
     \<lparr>COMPRESS_MIMETYPES = TEXT_TYPES, COMPRESS_LEVEL = 11, COMPRESS_MIN_SIZE = 500,
      ENABLE_GZIP = True, ENABLE_BROTLI = True, COMPRESS_REGISTER = True\<rparr>
     \<lparr>mimetype = ''text/html'', status_code = 200, content_length = Some 3,
      headers = [], data = ''abc'', direct_passthrough = False\<rparr>
   = Inr ''11''
   \<and> gzip_engine level_spy (min 9 11) ''abc'' = Inr ''9''"
  by (simp add: gzip_compress_def level_spy_def get_data_def str_int_def str_nat.simps)

text \<open>
  C2 (compression was applied if and only if the response then carries the encoding, the
  compressed length and \<open>Accept-Encoding\<close> as a token of \<open>Vary\<close>). As stated the claim
  fails: a \<open>Vary\<close> header that mentions \<open>accept-encoding\<close> inside a longer token is left
  as it is, so after compression \<open>Vary\<close> need not hold the token.
\<close>

theorem vary_token_counterexample:
  "exit (after_request tagging_engines no_cache (accepting ''gzip'')
           (page_varying ''X-Accept-Encoding'')) = Compressed \<and>
   hget ''Vary'' (headers (response_after
     (after_request tagging_engines no_cache (accepting ''gzip'')
        (page_varying ''X-Accept-Encoding'')))) = Some ''X-Accept-Encoding'' \<and>
   ''accept-encoding'' \<notin> set (map lower (vary_tokens ''X-Accept-Encoding''))"
proof -
  have run: "after_request tagging_engines no_cache (accepting ''gzip'')
               (page_varying ''X-Accept-Encoding'') =
             compress_response tagging_engines no_cache GZIP
               (page_varying ''X-Accept-Encoding'')"
    by (rule after_request_selected)
      (simp_all add: example_configs page_eligible accepting_header select_examples)
  have content: "compressed_content tagging_engines no_cache GZIP r =
                   (Inr (''gzip:'' @ data r), None, [Compress_method GZIP])" for r
    by (simp add: compressed_content_def no_cache_def gzip_compress_def tagging_engines_def
        get_data_def)
  have "''accept-encoding'' \<notin> set (map lower (vary_tokens ''X-Accept-Encoding''))"
    by (simp add: vary_tokens_def strip_def lower_def lower_char_def)
  moreover have "py_in ''accept-encoding'' (lower ''X-Accept-Encoding'')"
    by (simp add: lower_def lower_char_def)
  moreover have "hget ''Vary'' (headers (page_varying ''X-Accept-Encoding'')) =
                   Some ''X-Accept-Encoding''"
    by (simp add: page_varying_def page_def lower_def lower_char_def)
  ultimately show ?thesis
    by (simp add: run compress_response_def content rewrite_vary)
qed

text \<open>
  C2, amended. When the hook leaves by its last \<^verbatim>\<open>return\<close> the response carried no
  \<open>Content-Encoding\<close> before; afterwards \<open>Content-Encoding\<close> is \<open>brotli\<close> or \<open>gzip\<close>,
  and that word occurs in the lowercased \<open>Accept-Encoding\<close> of the request;
  \<open>Content-Length\<close> is the length of the new body; \<open>Vary\<close> mentions
  \<open>accept-encoding\<close>, and holds \<open>Accept-Encoding\<close> as a token unless the header it had
  before already mentioned it. On every other exit the headers and the body are the ones
  the response came with, so no \<open>Content-Encoding\<close> is ever set then.
\<close>

theorem compression_header_invariant:
  assumes "out = after_request E self req r"
  shows "if exit out = Compressed
         then hget ''Content-Encoding'' (headers r) = None \<and>
              (\<exists>encoding.
                 hget ''Content-Encoding'' (headers (response_after out)) =
                   Some (CONTENT_ENCODINGS encoding) \<and>
                 sublist (CONTENT_ENCODINGS encoding)
                   (lower (hget_default ''Accept-Encoding'' [] (request_headers req)))) \<and>
              hget ''Content-Length'' (headers (response_after out)) =
                Some (str_nat (length (data (response_after out)))) \<and>
              (\<exists>vary. hget ''Vary'' (headers (response_after out)) = Some vary \<and>
                 sublist ''accept-encoding'' (lower vary) \<and>
                 (case hget ''Vary'' (headers r) of
                    None \<Rightarrow> ''Accept-Encoding'' \<in> set (vary_tokens vary)
                  | Some prior \<Rightarrow>
                      sublist ''accept-encoding'' (lower prior) \<or>
                      ''Accept-Encoding'' \<in> set (vary_tokens vary)))
         else headers (response_after out) = headers r \<and>
              data (response_after out) = data r"
proof -
  consider
    (same) "exit out \<in> {Not_eligible, No_encoding}" "response_after out = r"
  | (raised) e where "exit out = Raised e"
      "response_after out = r\<lparr>direct_passthrough := False\<rparr>"
  | (compressed) encoding content where
      "\<not> ineligible (self_config self) r"
      "select_encoding (self_config self)
        (hget_default ''Accept-Encoding'' [] (request_headers req)) = Some encoding"
      "exit out = Compressed"
      "response_after out = rewrite encoding content (r\<lparr>direct_passthrough := False\<rparr>)"
    using after_request_exit_cases [of E self req r] assms by blast
  then show ?thesis
  proof cases
    case same
    then show ?thesis by auto
  next
    case raised
    then show ?thesis by simp
  next
    case compressed
    have ce: "hget ''Content-Encoding'' (headers r) = None"
      using compressed(1) by (simp add: ineligible_def hcontains_def)
    have tok: "sublist (CONTENT_ENCODINGS encoding)
                 (lower (hget_default ''Accept-Encoding'' [] (request_headers req)))"
      using compressed(2) by (rule select_encoding_token)
    have vary: "\<exists>vary. hget ''Vary'' (headers (response_after out)) = Some vary \<and>
                 sublist ''accept-encoding'' (lower vary) \<and>
                 (case hget ''Vary'' (headers r) of
                    None \<Rightarrow> ''Accept-Encoding'' \<in> set (vary_tokens vary)
                  | Some prior \<Rightarrow>
                      sublist ''accept-encoding'' (lower prior) \<or>
                      ''Accept-Encoding'' \<in> set (vary_tokens vary))"
      using mentions_appended mentions_fresh
      by (auto simp: compressed(4) rewrite_vary py_in_sublist tokens_appended tokens_fresh
          split: option.splits)
    show ?thesis
      using ce tok vary
      by (auto simp: compressed(3,4) rewrite_content_encoding rewrite_content_length_header
          rewrite_data)
  qed
qed

text \<open>C2, amended, at a page compressed with gzip and at an image left alone.\<close>

theorem compression_header_invariant_witness:
  "hget ''Content-Encoding'' (headers page) = None \<and>
   (\<exists>encoding.
      hget ''Content-Encoding'' (headers (response_after
        (after_request tagging_engines no_cache (accepting ''gzip'') page))) =
        Some (CONTENT_ENCODINGS encoding) \<and>
      sublist (CONTENT_ENCODINGS encoding)
        (lower (hget_default ''Accept-Encoding'' [] (request_headers (accepting ''gzip''))))) \<and>
   hget ''Content-Length'' (headers (response_after
     (after_request tagging_engines no_cache (accepting ''gzip'') page))) =
     Some (str_nat (length (data (response_after
       (after_request tagging_engines no_cache (accepting ''gzip'') page))))) \<and>
   headers (response_after (after_request tagging_engines no_cache (accepting ''gzip'') png_image)) =
     headers png_image"
proof -
  have "exit (after_request tagging_engines no_cache (accepting ''gzip'') png_image) \<noteq> Compressed"
    using image_ineligible
    by (simp add: after_request_def ineligible_def example_configs unmodified_def)
  then show ?thesis
    using compression_header_invariant [OF refl, of tagging_engines no_cache
        "accepting ''gzip''" page]
      compression_header_invariant [OF refl, of tagging_engines no_cache
        "accepting ''gzip''" png_image]
      gzip_run_exit
    by simp
qed

text \<open>
  C3 (a response that fails a condition of the eligibility filter is returned as it is,
  with no side effect). The MIME type is not in \<^verbatim>\<open>COMPRESS_MIMETYPES\<close>, or the status
  is outside 200..299, or the content length is absent or below
  \<^verbatim>\<open>COMPRESS_MIN_SIZE\<close>, or a \<open>Content-Encoding\<close> header is there already: then the
  hook leaves by its first \<^verbatim>\<open>return\<close> with the response and the cache as they were
  and without a call to the cache or to a compression method, whatever the engines are.
\<close>

theorem ineligible_returned_unmodified:
  assumes "mimetype r \<notin> COMPRESS_MIMETYPES (self_config self)
           \<or> status_code r < 200 \<or> 300 \<le> status_code r
           \<or> content_length r = None
           \<or> (\<exists>n. content_length r = Some n \<and> n < COMPRESS_MIN_SIZE (self_config self))
           \<or> hget ''Content-Encoding'' (headers r) \<noteq> None"
  shows "after_request E self req r =
           \<lparr>exit = Not_eligible, response_after = r, cache_after = self_cache self, calls = []\<rparr>"
proof -
  from assms have "ineligible (self_config self) r"
    by (auto simp: ineligible_def hcontains_def split: option.splits)
  then show ?thesis
    by (simp add: after_request_ineligible unmodified_def)
qed

text \<open>
  C3 at five responses, one for each condition, with engines that would raise if called
  and a cache that would record a lookup.
\<close>

theorem ineligible_returned_unmodified_witness:
  "after_request failing_engines both_keyed (accepting ''gzip'') png_image =
     \<lparr>exit = Not_eligible, response_after = png_image, cache_after = self_cache both_keyed,
      calls = []\<rparr> \<and>
   after_request failing_engines both_keyed (accepting ''gzip'') precompressed =
     \<lparr>exit = Not_eligible, response_after = precompressed,
      cache_after = self_cache both_keyed, calls = []\<rparr> \<and>
   after_request failing_engines both_keyed (accepting ''gzip'') (page\<lparr>status_code := 404\<rparr>) =
     \<lparr>exit = Not_eligible, response_after = page\<lparr>status_code := 404\<rparr>,
      cache_after = self_cache both_keyed, calls = []\<rparr> \<and>
   after_request failing_engines both_keyed (accepting ''gzip'')
       (page\<lparr>content_length := Some 499\<rparr>) =
     \<lparr>exit = Not_eligible, response_after = page\<lparr>content_length := Some 499\<rparr>,
      cache_after = self_cache both_keyed, calls = []\<rparr> \<and>
   after_request failing_engines both_keyed (accepting ''gzip'')
       (page\<lparr>content_length := None\<rparr>) =
     \<lparr>exit = Not_eligible, response_after = page\<lparr>content_length := None\<rparr>,
      cache_after = self_cache both_keyed, calls = []\<rparr>"
  using image_ineligible precompressed_ineligible
    ineligible_returned_unmodified [of png_image both_keyed failing_engines "accepting ''gzip''"]
    ineligible_returned_unmodified [of precompressed both_keyed failing_engines
      "accepting ''gzip''"]
    ineligible_returned_unmodified [of "page\<lparr>status_code := 404\<rparr>" both_keyed failing_engines
      "accepting ''gzip''"]
    ineligible_returned_unmodified [of "page\<lparr>content_length := Some 499\<rparr>" both_keyed
      failing_engines "accepting ''gzip''"]
    ineligible_returned_unmodified [of "page\<lparr>content_length := None\<rparr>" both_keyed
      failing_engines "accepting ''gzip''"]
  by (simp add: example_configs default_config_def)

text \<open>
  C4 (for an eligible response the encoding is selected by case-insensitive substring
  match, Brotli first, and without a match the response is returned as it is). The hook
  does what the specification's selection says: it goes on to compress with the encoding
  selected, or leaves by its second \<^verbatim>\<open>return\<close> with nothing touched.
\<close>

theorem encoding_selection:
  assumes "\<not> ineligible (self_config self) r"
  shows "after_request E self req r =
           (case spec_selection (ENABLE_BROTLI (self_config self)) (ENABLE_GZIP (self_config self))
                   (hget ''Accept-Encoding'' (request_headers req)) of
              Some encoding \<Rightarrow> compress_response E self encoding r
            | None \<Rightarrow> \<lparr>exit = No_encoding, response_after = r,
                        cache_after = self_cache self, calls = []\<rparr>)"
  using assms
  by (simp add: after_request_def unmodified_def select_encoding_spec split: option.splits)

text \<open>
  C4 at three requests: \<open>gzip\<close> inside a longer word and in mixed case, \<open>BROTLI\<close> after
  \<open>gzip\<close>, and no \<open>Accept-Encoding\<close> header at all.
\<close>

theorem encoding_selection_witness:
  "after_request tagging_engines no_cache (accepting ''x-GZip;q=1'') page =
     compress_response tagging_engines no_cache GZIP page \<and>
   after_request tagging_engines no_cache (accepting ''gzip, BROTLI'') page =
     compress_response tagging_engines no_cache BROTLI page \<and>
   after_request tagging_engines no_cache \<lparr>request_headers = []\<rparr> page =
     \<lparr>exit = No_encoding, response_after = page, cache_after = self_cache no_cache,
      calls = []\<rparr>"
  using encoding_selection [OF page_eligible_self(1), of tagging_engines
      "accepting ''x-GZip;q=1''"]
    encoding_selection [OF page_eligible_self(1), of tagging_engines
      "accepting ''gzip, BROTLI''"]
    encoding_selection [OF page_eligible_self(1), of tagging_engines
      "\<lparr>request_headers = []\<rparr>"]
  by (simp add: example_configs accepting_header spec_selection_examples
      default_config_def)

text \<open>
  C5 (with \<open>Accept-Encoding: br, gzip\<close> and both algorithms enabled, Brotli is
  selected). The code looks for the word \<open>brotli\<close>, which \<open>br, gzip\<close> does not
  contain: gzip is selected, and the gzip method is the one called.
\<close>

theorem br_gzip_counterexample:
  "select_encoding (self_config no_cache)
     (hget_default ''Accept-Encoding'' [] (request_headers (accepting ''br, gzip''))) =
     Some GZIP \<and>
   after_request tagging_engines no_cache (accepting ''br, gzip'') page \<noteq>
     compress_response tagging_engines no_cache BROTLI page \<and>
   calls (after_request tagging_engines no_cache (accepting ''br, gzip'') page) =
     [Compress_method GZIP]"
proof -
  have run: "after_request tagging_engines no_cache (accepting ''br, gzip'') page =
             compress_response tagging_engines no_cache GZIP page"
    by (rule after_request_selected)
      (simp_all add: example_configs page_eligible accepting_header select_examples)
  have gz: "calls (compress_response tagging_engines no_cache GZIP page) =
              [Compress_method GZIP]"
    by (simp add: compress_response_def no_cache_content tagging_gzip Let_def)
  have br: "calls (compress_response tagging_engines no_cache BROTLI page) =
              [Compress_method BROTLI]"
    by (simp add: compress_response_def no_cache_content tagging_brotli Let_def)
  from gz br have "compress_response tagging_engines no_cache GZIP page \<noteq>
        compress_response tagging_engines no_cache BROTLI page"
    by auto
  with run gz show ?thesis
    by (simp add: example_configs accepting_header select_examples)
qed

text \<open>
  C5, amended. With \<open>Accept-Encoding: brotli, gzip\<close>, the word the code matches, and
  both algorithms enabled, an eligible response is compressed with Brotli.
\<close>

theorem brotli_preferred:
  assumes "\<not> ineligible (self_config self) r"
      and "ENABLE_BROTLI (self_config self)" and "ENABLE_GZIP (self_config self)"
      and "hget ''Accept-Encoding'' (request_headers req) = Some ''brotli, gzip''"
  shows "select_encoding (self_config self)
           (hget_default ''Accept-Encoding'' [] (request_headers req)) = Some BROTLI \<and>
         after_request E self req r = compress_response E self BROTLI r"
proof -
  have "select_encoding (self_config self)
           (hget_default ''Accept-Encoding'' [] (request_headers req)) = Some BROTLI"
    using assms(2,4)
    by (simp add: select_encoding_def hget_default_def lower_def lower_char_def)
  with assms(1) show ?thesis
    by (simp add: after_request_selected)
qed

text \<open>C5, amended, at the example page under the default configuration.\<close>

theorem brotli_preferred_witness:
  "select_encoding (self_config no_cache)
     (hget_default ''Accept-Encoding'' [] (request_headers (accepting ''brotli, gzip''))) =
     Some BROTLI \<and>
   after_request tagging_engines no_cache (accepting ''brotli, gzip'') page =
     compress_response tagging_engines no_cache BROTLI page"
  using brotli_preferred [OF page_eligible_self(1), of "accepting ''brotli, gzip''"
      tagging_engines]
  by (simp add: example_configs default_config_def accepting_header)

text \<open>
  C8 (with a cache configured and no key function for the selected encoding, the hook
  raises). Calling the key function that is \<^verbatim>\<open>None\<close> raises \<^verbatim>\<open>TypeError\<close>, before
  the cache is consulted and before anything is compressed; the response body and headers
  are as they were.
\<close>

theorem missing_key_function_raises:
  assumes "\<not> ineligible (self_config self) r"
      and "select_encoding (self_config self)
             (hget_default ''Accept-Encoding'' [] (request_headers req)) = Some encoding"
      and "self_cache self = Some c"
      and "cache_keys encoding self = None"
  shows "after_request E self req r =
           \<lparr>exit = Raised TypeError, response_after = r\<lparr>direct_passthrough := False\<rparr>,
            cache_after = Some c, calls = []\<rparr>"
  using assms
  by (simp add: after_request_selected compress_response_def compressed_content_def)

text \<open>C8 at a cache with a key function for gzip only, and a request for Brotli.\<close>

theorem missing_key_function_raises_witness:
  "after_request tagging_engines gzip_keyed (accepting ''brotli'') page =
     \<lparr>exit = Raised TypeError, response_after = page\<lparr>direct_passthrough := False\<rparr>,
      cache_after = Some DictCache, calls = []\<rparr>"
proof -
  have "select_encoding (self_config gzip_keyed)
          (hget_default ''Accept-Encoding'' [] (request_headers (accepting ''brotli''))) =
        Some BROTLI"
    by (simp add: example_configs accepting_header select_examples)
  moreover have "self_cache gzip_keyed = Some DictCache"
    by (simp add: gzip_keyed_def)
  moreover have "cache_keys BROTLI gzip_keyed = None"
    by (simp add: gzip_keyed_def)
  ultimately show ?thesis
    using page_eligible_self(2) by (rule missing_key_function_raises [rotated])
qed

text \<open>
  C9 (when the compression routine or a cache operation raises, the error propagates and
  no part of the response has been modified). The flag \<^verbatim>\<open>direct_passthrough\<close> is
  cleared before the content is compressed: a response that had it set has lost it when
  the gzip library raises.
\<close>

theorem passthrough_cleared_counterexample:
  "exit (after_request failing_engines no_cache (accepting ''gzip'') page) =
     Raised (LibraryError ''gzip'') \<and>
   direct_passthrough page \<and>
   \<not> direct_passthrough
       (response_after (after_request failing_engines no_cache (accepting ''gzip'') page)) \<and>
   response_after (after_request failing_engines no_cache (accepting ''gzip'') page) \<noteq> page"
proof -
  have "direct_passthrough page"
    by (simp add: page_def)
  moreover have "after_request failing_engines no_cache (accepting ''gzip'') page =
      \<lparr>exit = Raised (LibraryError ''gzip''),
       response_after = page\<lparr>direct_passthrough := False\<rparr>,
       cache_after = None, calls = [Compress_method GZIP]\<rparr>"
    by (simp add: gzip_run compress_response_def no_cache_content failing_gzip Let_def)
  moreover have "page\<lparr>direct_passthrough := False\<rparr> \<noteq> page"
  proof
    assume "page\<lparr>direct_passthrough := False\<rparr> = page"
    then have "direct_passthrough (page\<lparr>direct_passthrough := False\<rparr>) =
               direct_passthrough page"
      by (rule arg_cong)
    then show False
      by (simp add: page_def)
  qed
  ultimately show ?thesis
    by simp
qed

text \<open>
  C9, amended. When the compression method or a cache operation raises, the hook leaves
  with that error, and the response is the one it was given but for
  \<^verbatim>\<open>direct_passthrough\<close>, which is now off: body, headers, content length, status and
  MIME type are untouched.
\<close>

theorem failure_propagates:
  assumes "\<not> ineligible (self_config self) r"
      and "select_encoding (self_config self)
             (hget_default ''Accept-Encoding'' [] (request_headers req)) = Some encoding"
      and "routine_raises E self encoding (r\<lparr>direct_passthrough := False\<rparr>) e"
  shows "exit (after_request E self req r) = Raised e \<and>
         response_after (after_request E self req r) = r\<lparr>direct_passthrough := False\<rparr> \<and>
         data (response_after (after_request E self req r)) = data r \<and>
         headers (response_after (after_request E self req r)) = headers r \<and>
         content_length (response_after (after_request E self req r)) = content_length r \<and>
         status_code (response_after (after_request E self req r)) = status_code r \<and>
         mimetype (response_after (after_request E self req r)) = mimetype r"
proof -
  have run: "after_request E self req r = compress_response E self encoding r"
    using assms(1,2) by (rule after_request_selected)
  have "fst (compressed_content E self encoding (r\<lparr>direct_passthrough := False\<rparr>)) = Inl e"
    using assms(3) by (rule compressed_content_raises)
  then obtain c cs where
    "compressed_content E self encoding (r\<lparr>direct_passthrough := False\<rparr>) = (Inl e, c, cs)"
    by (cases "compressed_content E self encoding (r\<lparr>direct_passthrough := False\<rparr>)") simp
  then show ?thesis
    by (simp add: run compress_response_def)
qed

text \<open>C9, amended, at the example page with a gzip library that raises.\<close>

theorem failure_propagates_witness:
  "exit (after_request failing_engines no_cache (accepting ''gzip'') page) =
     Raised (LibraryError ''gzip'') \<and>
   response_after (after_request failing_engines no_cache (accepting ''gzip'') page) =
     page\<lparr>direct_passthrough := False\<rparr> \<and>
   data (response_after (after_request failing_engines no_cache (accepting ''gzip'') page)) =
     data page \<and>
   headers (response_after (after_request failing_engines no_cache (accepting ''gzip'') page)) =
     headers page"
proof -
  have sel: "select_encoding (self_config no_cache)
          (hget_default ''Accept-Encoding'' [] (request_headers (accepting ''gzip''))) =
        Some GZIP"
    by (simp add: example_configs accepting_header select_examples)
  have "routine_raises failing_engines no_cache GZIP (page\<lparr>direct_passthrough := False\<rparr>)
          (LibraryError ''gzip'')"
    by (simp add: routine_raises_def no_cache_def failing_gzip)
  from failure_propagates [OF page_eligible_self(1) sel this] show ?thesis
    by simp
qed

text \<open>
  C7 (a compressed response that came with \<open>Vary: Cookie\<close> leaves with \<open>Cookie\<close> and
  \<open>Accept-Encoding\<close> in \<open>Vary\<close>, each once; a \<open>Vary\<close> that mentions
  \<open>accept-encoding\<close> is left unchanged, an absent one becomes \<open>Accept-Encoding\<close>; the
  merge is idempotent). After compression the header is \<open>Cookie, Accept-Encoding\<close>;
  merging once more changes nothing, and neither does running the hook again on the
  response, with any engines, configuration and request. For every list of headers the
  merge is idempotent, sets an absent \<open>Vary\<close> to \<open>Accept-Encoding\<close>, and leaves the
  headers alone when \<open>Vary\<close> mentions \<open>accept-encoding\<close> in any case.
\<close>

theorem vary_merge_idempotent:
  assumes "exit (after_request E self req r) = Compressed"
      and "hget ''Vary'' (headers r) = Some ''Cookie''"
  shows "hget ''Vary'' (headers (response_after (after_request E self req r))) =
           Some ''Cookie, Accept-Encoding'' \<and>
         count_list (vary_tokens ''Cookie, Accept-Encoding'') ''Cookie'' = 1 \<and>
         count_list (vary_tokens ''Cookie, Accept-Encoding'') ''Accept-Encoding'' = 1 \<and>
         vary_merge (headers (response_after (after_request E self req r))) =
           headers (response_after (after_request E self req r)) \<and>
         response_after (after_request E' self' req' (response_after (after_request E self req r))) =
           response_after (after_request E self req r) \<and>
         vary_merge (vary_merge hs) = vary_merge hs \<and>
         (hget ''Vary'' hs = None \<longrightarrow>
            hget ''Vary'' (vary_merge hs) = Some ''Accept-Encoding'') \<and>
         (\<forall>v. hget ''Vary'' hs = Some v \<and> v \<noteq> [] \<and> sublist ''accept-encoding'' (lower v) \<longrightarrow>
            vary_merge hs = hs)"
proof -
  obtain encoding content where
    after: "response_after (after_request E self req r) =
              rewrite encoding content (r\<lparr>direct_passthrough := False\<rparr>)"
    using after_request_exit_cases [of E self req r] assms(1) by auto
  have vary: "hget ''Vary'' (headers (response_after (after_request E self req r))) =
           Some ''Cookie, Accept-Encoding''"
    using assms(2) by (simp add: after rewrite_vary cookie_not_mentions)
  have fixed: "vary_merge (headers (response_after (after_request E self req r))) =
           headers (response_after (after_request E self req r))"
    using mentions_appended [of "''Cookie''"] by (simp add: vary_merge_def vary)
  have again: "response_after (after_request E' self' req'
                 (response_after (after_request E self req r))) =
               response_after (after_request E self req r)"
    by (simp add: after after_request_ineligible rewrite_ineligible unmodified_def)
  have unchanged: "\<forall>v. hget ''Vary'' hs = Some v \<and> v \<noteq> [] \<and>
      sublist ''accept-encoding'' (lower v) \<longrightarrow> vary_merge hs = hs"
    by (simp add: vary_merge_def py_in_sublist)
  have absent: "hget ''Vary'' hs = None \<longrightarrow>
            hget ''Vary'' (vary_merge hs) = Some ''Accept-Encoding''"
    by (simp add: vary_merge_vary)
  show ?thesis
    using vary fixed again unchanged absent
    by (simp add: cookie_tokens vary_merge_idem)
qed

text \<open>
  C7 at the example page with \<open>Vary: Cookie\<close>, at no headers, and at a lowercase
  \<open>vary\<close> header that mentions the word already.
\<close>

theorem vary_merge_idempotent_witness:
  "hget ''Vary'' (headers (response_after
     (after_request tagging_engines no_cache (accepting ''gzip'') (page_varying ''Cookie'')))) =
     Some ''Cookie, Accept-Encoding'' \<and>
   response_after (after_request tagging_engines no_cache (accepting ''gzip'')
     (response_after
       (after_request tagging_engines no_cache (accepting ''gzip'') (page_varying ''Cookie'')))) =
     response_after
       (after_request tagging_engines no_cache (accepting ''gzip'') (page_varying ''Cookie'')) \<and>
   hget ''Vary'' (vary_merge []) = Some ''Accept-Encoding'' \<and>
   vary_merge [(''vary'', ''Cookie, accept-encoding'')] =
     [(''vary'', ''Cookie, accept-encoding'')]"
proof -
  have run: "exit (after_request tagging_engines no_cache (accepting ''gzip'')
               (page_varying ''Cookie'')) = Compressed"
    by (rule tagging_gzip_run) (rule page_eligible)
  have cookie: "hget ''Vary'' (headers (page_varying ''Cookie'')) = Some ''Cookie''"
    by (simp add: page_varying_def page_def lower_def lower_char_def)
  have mentions: "hget ''Vary'' [(''vary'', ''Cookie, accept-encoding'')] =
      Some ''Cookie, accept-encoding'' \<and> ''Cookie, accept-encoding'' \<noteq> [] \<and>
      sublist ''accept-encoding'' (lower ''Cookie, accept-encoding'')"
    by (simp add: lower_def lower_char_def flip: py_in_sublist)
  show ?thesis
    using vary_merge_idempotent [OF run cookie, of tagging_engines no_cache
        "accepting ''gzip''" "[]"]
      vary_merge_idempotent [OF run cookie, of tagging_engines no_cache
        "accepting ''gzip''" "[(''vary'', ''Cookie, accept-encoding'')]"]
      mentions
    by simp
qed

text \<open>
  C6 (with a cache and a key function, two invocations in a row on responses with the
  same cache key give the same compressed bytes, and the second does not call the
  compression routine). As stated the claim fails. The hook relies on what the backend
  answers: with a backend that keeps nothing the second invocation misses and compresses
  again. And an empty byte string from the cache counts as a miss, so had the
  compression method answered with no bytes the second invocation would compress again
  as well.
\<close>

theorem cache_miss_counterexample:
  "exit (after_request tagging_engines null_keyed (accepting ''gzip'') page) = Compressed \<and>
   Compress_method GZIP \<in> set (calls (after_request tagging_engines
     (null_keyed\<lparr>self_cache :=
        cache_after (after_request tagging_engines null_keyed (accepting ''gzip'') page)\<rparr>)
     (accepting ''gzip'') page)) \<and>
   exit (after_request silent_engines both_keyed (accepting ''gzip'') page) = Compressed \<and>
   Compress_method GZIP \<in> set (calls (after_request silent_engines
     (both_keyed\<lparr>self_cache :=
        cache_after (after_request silent_engines both_keyed (accepting ''gzip'') page)\<rparr>)
     (accepting ''gzip'') page))"
proof -
  have first: "after_request tagging_engines null_keyed (accepting ''gzip'') page =
      \<lparr>exit = Compressed,
       response_after = rewrite GZIP (''gzip:'' @ data page) (page\<lparr>direct_passthrough := False\<rparr>),
       cache_after = Some null_cache,
       calls = [Cache_get ''gz:text/html'', Compress_method GZIP,
                Cache_set ''gz:text/html'' (''gzip:'' @ data page)]\<rparr>"
    using null_keyed_run [of tagging_engines] by (simp add: null_keyed_same tagging_gzip)
  have second: "Compress_method GZIP \<in> set (calls (after_request tagging_engines
     (null_keyed\<lparr>self_cache :=
        cache_after (after_request tagging_engines null_keyed (accepting ''gzip'') page)\<rparr>)
     (accepting ''gzip'') page))"
    by (simp add: first null_keyed_same)
  have silent: "gzip_compress silent_engines app r = Inr []" for app r
    by (simp add: gzip_compress_def silent_engines_def)
  have run: "after_request silent_engines (both_keyed\<lparr>self_cache := Some (DictCache\<lparr>store := m\<rparr>)\<rparr>)
               (accepting ''gzip'') page =
             compress_response silent_engines
               (both_keyed\<lparr>self_cache := Some (DictCache\<lparr>store := m\<rparr>)\<rparr>) GZIP page" for m
    by (rule after_request_selected)
      (simp_all add: example_configs page_eligible accepting_header select_examples)
  have content: "m ''gz:text/html'' = None \<or> m ''gz:text/html'' = Some [] \<Longrightarrow>
      compressed_content silent_engines
        (both_keyed\<lparr>self_cache := Some (DictCache\<lparr>store := m\<rparr>)\<rparr>) GZIP
        (page\<lparr>direct_passthrough := False\<rparr>) =
      (Inr [], Some (DictCache\<lparr>store := m(''gz:text/html'' \<mapsto> [])\<rparr>),
       [Cache_get ''gz:text/html'', Compress_method GZIP, Cache_set ''gz:text/html'' []])" for m
    by (auto simp: compressed_content_def get_or_compress_def both_keyed_def silent
        DictCache_def DictCache_get_def DictCache_set_def page_def Let_def)
  have same: "both_keyed\<lparr>self_cache := Some (DictCache\<lparr>store := Map.empty\<rparr>)\<rparr> = both_keyed"
    by (simp add: both_keyed_def DictCache_def)
  have first': "after_request silent_engines both_keyed (accepting ''gzip'') page =
      \<lparr>exit = Compressed,
       response_after = rewrite GZIP [] (page\<lparr>direct_passthrough := False\<rparr>),
       cache_after = Some (DictCache\<lparr>store := [''gz:text/html'' \<mapsto> []]\<rparr>),
       calls = [Cache_get ''gz:text/html'', Compress_method GZIP,
                Cache_set ''gz:text/html'' []]\<rparr>"
    using run [of Map.empty] content [of Map.empty]
    by (simp add: same compress_response_def Let_def)
  have second': "Compress_method GZIP \<in> set (calls (after_request silent_engines
     (both_keyed\<lparr>self_cache :=
        cache_after (after_request silent_engines both_keyed (accepting ''gzip'') page)\<rparr>)
     (accepting ''gzip'') page))"
    using run [of "[''gz:text/html'' \<mapsto> []]"] content [of "[''gz:text/html'' \<mapsto> []]"]
    by (simp add: first' compress_response_def Let_def)
  show ?thesis
    using first second first' second' by simp
qed

text \<open>
  C6, amended. The cache keeps what it is given, the compression libraries never answer
  with an empty byte string, and the first invocation completes. Then in the first
  invocation the cache is looked up under the key; on a miss the body is what the
  compression method returns, on a hit it is the cached bytes, and the compression
  method is not called; either way the body is stored under the key and the cache
  answers with it afterwards. The second invocation, on a response with the same key and
  on the cache the first one left, completes with the same body, and all it calls is the
  lookup and the store: no compression method, whatever the engines \<open>E2\<close> would do.
\<close>

theorem cache_hit_skips_compression:
  assumes "nonempty_output E"
      and "self_cache self = Some c"
      and "retains c"
      and "\<not> ineligible (self_config self) r1"
      and "\<not> ineligible (self_config self) r2"
      and "select_encoding (self_config self)
             (hget_default ''Accept-Encoding'' [] (request_headers req1)) = Some encoding1"
      and "select_encoding (self_config self)
             (hget_default ''Accept-Encoding'' [] (request_headers req2)) = Some encoding2"
      and "cache_keys encoding1 self = Some key1"
      and "cache_keys encoding2 self = Some key2"
      and "key = key1 (r1\<lparr>direct_passthrough := False\<rparr>)"
      and "key = key2 (r2\<lparr>direct_passthrough := False\<rparr>)"
      and "out1 = after_request E self req1 r1"
      and "out2 = after_request E2 (self\<lparr>self_cache := cache_after out1\<rparr>) req2 r2"
      and "exit out1 = Compressed"
  shows "(\<exists>hit. cache_get c (store c) key = Inr hit \<and>
            (if hit = None \<or> hit = Some []
             then compress_methods encoding1 E (self_config self)
                    (r1\<lparr>direct_passthrough := False\<rparr>) = Inr (data (response_after out1)) \<and>
                  calls out1 = [Cache_get key, Compress_method encoding1,
                                Cache_set key (data (response_after out1))]
             else hit = Some (data (response_after out1)) \<and>
                  calls out1 = [Cache_get key,
                                Cache_set key (data (response_after out1))])) \<and>
         (\<exists>s. cache_set c (store c) key (data (response_after out1)) = Inr s \<and>
              cache_after out1 = Some (c\<lparr>store := s\<rparr>) \<and>
              cache_get c s key = Inr (Some (data (response_after out1)))) \<and>
         exit out2 = Compressed \<and>
         data (response_after out2) = data (response_after out1) \<and>
         calls out2 = [Cache_get key, Cache_set key (data (response_after out1))] \<and>
         Compress_method encoding \<notin> set (calls out2)"
proof -
  let ?r1 = "r1\<lparr>direct_passthrough := False\<rparr>"
  let ?r2 = "r2\<lparr>direct_passthrough := False\<rparr>"
  have first: "out1 = compress_response E self encoding1 r1"
    using assms(4,6) by (simp add: assms(12) after_request_selected)
  obtain content c' cs where
    cc: "compressed_content E self encoding1 ?r1 = (Inr content, c', cs)" and
    out1: "out1 = \<lparr>exit = Compressed, response_after = rewrite encoding1 content ?r1,
                    cache_after = c', calls = cs\<rparr>"
    using compress_response_compressed [of E self encoding1 r1] assms(14) first by auto
  have data1: "data (response_after out1) = content"
    by (simp add: out1 rewrite_data)
  obtain hit s where
    hit: "cache_get c (store c) key = Inr hit" and
    chosen: "if hit = None \<or> hit = Some []
             then compress_methods encoding1 E (self_config self) ?r1 = Inr content \<and>
                  cs = [Cache_get key, Compress_method encoding1, Cache_set key content]
             else hit = Some content \<and> cs = [Cache_get key, Cache_set key content]" and
    s: "cache_set c (store c) key content = Inr s" and
    c': "c' = Some (c\<lparr>store := s\<rparr>)"
    using keyed_content [OF assms(2,8) cc] unfolding assms(10) by blast
  have nonempty: "content \<noteq> []"
  proof (cases "hit = None \<or> hit = Some []")
    case True
    with chosen have "compress_methods encoding1 E (self_config self) ?r1 = Inr content"
      by simp
    with assms(1) show ?thesis
      by (rule compress_methods_nonempty)
  next
    case False
    with chosen show ?thesis
      by auto
  qed
  obtain s' where "cache_set c (store c) key content = Inr s'"
    and readback: "cache_get c s' key = Inr (Some content)"
    using assms(3) unfolding retains_def by blast
  with s have read: "cache_get c s key = Inr (Some content)"
    by simp
  obtain s2 where s2: "cache_set c s key content = Inr s2"
    using assms(3) unfolding retains_def by blast
  let ?self2 = "self\<lparr>self_cache := Some (c\<lparr>store := s\<rparr>)\<rparr>"
  have second: "out2 = compress_response E2 ?self2 encoding2 r2"
    unfolding assms(13) out1 c'
    by (simp add: after_request_selected assms(5,7))
  have "compressed_content E2 ?self2 encoding2 ?r2 =
          (Inr content, Some ((c\<lparr>store := s\<rparr>)\<lparr>store := s2\<rparr>),
           [Cache_get (key2 ?r2), Cache_set (key2 ?r2) content])"
    by (rule keyed_hit) (simp_all add: assms(9) assms(11) [symmetric] read nonempty s2)
  then have out2: "out2 =
      \<lparr>exit = Compressed, response_after = rewrite encoding2 content ?r2,
       cache_after = Some ((c\<lparr>store := s\<rparr>)\<lparr>store := s2\<rparr>),
       calls = [Cache_get key, Cache_set key content]\<rparr>"
    by (simp add: second compress_response_def Let_def assms(11) [symmetric])
  have part1: "\<exists>hit. cache_get c (store c) key = Inr hit \<and>
            (if hit = None \<or> hit = Some []
             then compress_methods encoding1 E (self_config self) ?r1 =
                    Inr (data (response_after out1)) \<and>
                  calls out1 = [Cache_get key, Compress_method encoding1,
                                Cache_set key (data (response_after out1))]
             else hit = Some (data (response_after out1)) \<and>
                  calls out1 = [Cache_get key,
                                Cache_set key (data (response_after out1))])"
    using hit chosen unfolding data1 by (auto simp: out1)
  have part2: "\<exists>s. cache_set c (store c) key (data (response_after out1)) = Inr s \<and>
              cache_after out1 = Some (c\<lparr>store := s\<rparr>) \<and>
              cache_get c s key = Inr (Some (data (response_after out1)))"
    using s c' read unfolding data1 by (auto simp: out1)
  have part3: "exit out2 = Compressed \<and>
         data (response_after out2) = data (response_after out1) \<and>
         calls out2 = [Cache_get key, Cache_set key (data (response_after out1))] \<and>
         Compress_method encoding \<notin> set (calls out2)"
    unfolding data1 by (simp add: out2 rewrite_data)
  from part1 part2 part3 show ?thesis
    by blast
qed

text \<open>
  C6, amended, at the example page requested twice with gzip from a \<^verbatim>\<open>DictCache\<close>,
  the second time with engines that would raise if they were called.
\<close>

theorem cache_hit_skips_compression_witness:
  "exit (after_request failing_engines
           (both_keyed\<lparr>self_cache :=
              cache_after (after_request tagging_engines both_keyed (accepting ''gzip'') page)\<rparr>)
           (accepting ''gzip'') page) = Compressed \<and>
   data (response_after (after_request failing_engines
           (both_keyed\<lparr>self_cache :=
              cache_after (after_request tagging_engines both_keyed (accepting ''gzip'') page)\<rparr>)
           (accepting ''gzip'') page)) =
     data (response_after (after_request tagging_engines both_keyed (accepting ''gzip'') page)) \<and>
   Compress_method GZIP \<notin> set (calls (after_request failing_engines
           (both_keyed\<lparr>self_cache :=
              cache_after (after_request tagging_engines both_keyed (accepting ''gzip'') page)\<rparr>)
           (accepting ''gzip'') page))"
  using cache_hit_skips_compression [OF tagging_nonempty both_keyed_fields(1)
      retains_DictCache
      page_eligible_self(3) page_eligible_self(3) both_keyed_select both_keyed_select
      both_keyed_fields(2) both_keyed_fields(2) refl refl refl refl both_keyed_first,
      of failing_engines GZIP]
  by blast

text \<open>
  C10 (even with \<^verbatim>\<open>COMPRESS_REGISTER\<close> true, \<^verbatim>\<open>init_app\<close> registers the hook only
  if the configured set of MIME types is not empty). The hook is appended to the
  application's after-request functions exactly when \<^verbatim>\<open>COMPRESS_REGISTER\<close> is true
  and \<^verbatim>\<open>COMPRESS_MIMETYPES\<close> is not empty, both after the defaults. With an empty set
  the list of functions is left as it was, so the framework never calls the hook; and
  were the hook called all the same, every response would fail the eligibility filter
  and come back as it is.
\<close>

theorem hook_needs_mimetypes:
  "after_request_funcs (snd (init_app app)) =
     (if setdefault (cfg_COMPRESS_REGISTER (app_config app)) True \<and>
         setdefault (cfg_COMPRESS_MIMETYPES (app_config app)) TEXT_TYPES \<noteq> {}
      then after_request_funcs app @ [Compress_after_request]
      else after_request_funcs app) \<and>
   (cfg_COMPRESS_MIMETYPES (app_config app) = Some {} \<longrightarrow>
      after_request_funcs (snd (init_app app)) = after_request_funcs app \<and>
      after_request E (fst (init_app app)) req r =
        \<lparr>exit = Not_eligible, response_after = r,
         cache_after = self_cache (fst (init_app app)), calls = []\<rparr>)"
proof -
  have funcs: "after_request_funcs (snd (init_app app)) =
     (if setdefault (cfg_COMPRESS_REGISTER (app_config app)) True \<and>
         setdefault (cfg_COMPRESS_MIMETYPES (app_config app)) TEXT_TYPES \<noteq> {}
      then after_request_funcs app @ [Compress_after_request]
      else after_request_funcs app)"
    by (simp add: init_app_def with_defaults_def Let_def)
  have conf: "self_config (fst (init_app app)) = with_defaults (app_config app)"
    by (simp add: init_app_def Let_def)
  have "ineligible (self_config (fst (init_app app))) r"
    if "cfg_COMPRESS_MIMETYPES (app_config app) = Some {}"
    using that by (simp add: conf with_defaults_def setdefault_def ineligible_def)
  then show ?thesis
    using funcs by (simp add: after_request_ineligible unmodified_def setdefault_def)
qed

text \<open>
  C10 at an application that sets an empty set of MIME types and
  \<^verbatim>\<open>COMPRESS_REGISTER\<close> true, and at one that sets nothing.
\<close>

theorem hook_needs_mimetypes_witness:
  "after_request_funcs
     (snd (init_app (bare_app\<lparr>app_config :=
        (app_config bare_app)\<lparr>cfg_COMPRESS_MIMETYPES := Some {},
                               cfg_COMPRESS_REGISTER := Some True\<rparr>\<rparr>))) =
     [Other_hook ''session''] \<and>
   after_request_funcs (snd (init_app bare_app)) =
     [Other_hook ''session'', Compress_after_request]"
  using hook_needs_mimetypes [of "bare_app\<lparr>app_config :=
        (app_config bare_app)\<lparr>cfg_COMPRESS_MIMETYPES := Some {},
                               cfg_COMPRESS_REGISTER := Some True\<rparr>\<rparr>"]
    hook_needs_mimetypes [of bare_app]
  by (simp add: bare_app_def setdefault_def TEXT_TYPES_def)

end
